theory Spec2Isabelle
  imports Main "HOL-Library.Sublist"
begin

section \<open>Decoded JSON values and the Python operations the code applies to them\<close>

text \<open>
  \<^verbatim>\<open>response.json()\<close> yields an arbitrary decoded JSON value. A dict is kept as an
  association list read with \<^const>\<open>map_of\<close>; numbers are whole numbers (the review
  timestamps of the detail endpoint are epoch seconds).
\<close>

datatype json =
    JNull
  | JBool bool
  | JNum int
  | JStr string
  | JArr "json list"
  | JObj "(string \<times> json) list"

datatype error =
    KeyError string
  | TypeError
  | AttributeError
  | NetworkError

text \<open>Truth value of a Python object, as \<^verbatim>\<open>if x:\<close> and \<^verbatim>\<open>not x\<close> read it.\<close>

fun truthy :: "json \<Rightarrow> bool" where
  "truthy JNull = False"
| "truthy (JBool b) = b"
| "truthy (JNum n) = (n \<noteq> 0)"
| "truthy (JStr s) = (s \<noteq> [])"
| "truthy (JArr xs) = (xs \<noteq> [])"
| "truthy (JObj kvs) = (kvs \<noteq> [])"

text \<open>
  \<^verbatim>\<open>k in v\<close> for a string \<open>k\<close>: key membership on a dict, substring test on a string,
  element membership on a list, TypeError on None, a number or a boolean.
\<close>

fun py_in :: "string \<Rightarrow> json \<Rightarrow> error + bool" where
  "py_in k (JObj kvs) = Inr (map_of kvs k \<noteq> None)"
| "py_in k (JStr s) = Inr (sublist k s)"
| "py_in k (JArr xs) = Inr (JStr k \<in> set xs)"
| "py_in k v = Inl TypeError"

text \<open>\<^verbatim>\<open>v.get(k, d)\<close>: only a dict has the method.\<close>

fun py_get :: "json \<Rightarrow> string \<Rightarrow> json \<Rightarrow> error + json" where
  "py_get (JObj kvs) k d = Inr (case map_of kvs k of None \<Rightarrow> d | Some x \<Rightarrow> x)"
| "py_get v k d = Inl AttributeError"

text \<open>\<^verbatim>\<open>v[k]\<close> for a string \<open>k\<close>: KeyError on a dict without the key, TypeError elsewhere.\<close>

fun py_item :: "json \<Rightarrow> string \<Rightarrow> error + json" where
  "py_item (JObj kvs) k = (case map_of kvs k of None \<Rightarrow> Inl (KeyError k) | Some x \<Rightarrow> Inr x)"
| "py_item v k = Inl TypeError"

text \<open>
  What a \<^verbatim>\<open>for\<close> loop or a comprehension iterates over: the elements of a list, the
  one-character strings of a string, the keys of a dict (each once, in the order of
  their first entry); anything else is not iterable.
\<close>

fun py_iter :: "json \<Rightarrow> error + json list" where
  "py_iter (JArr xs) = Inr xs"
| "py_iter (JStr s) = Inr (map (\<lambda>c. JStr [c]) s)"
| "py_iter (JObj kvs) = Inr (map JStr (rev (remdups (rev (map fst kvs)))))"
| "py_iter v = Inl TypeError"

text \<open>\<^verbatim>\<open>v > c\<close> for a number \<open>c\<close>: booleans count as 0 and 1, other types raise.\<close>

fun py_gt :: "json \<Rightarrow> int \<Rightarrow> error + bool" where
  "py_gt (JNum n) c = Inr (n > c)"
| "py_gt (JBool b) c = Inr ((if b then 1 else 0) > c)"
| "py_gt v c = Inl TypeError"

definition bind_err :: "error + 'a \<Rightarrow> ('a \<Rightarrow> error + 'b) \<Rightarrow> error + 'b" where
  "bind_err m f = (case m of Inl e \<Rightarrow> Inl e | Inr x \<Rightarrow> f x)"

section \<open>The filter block of \<^verbatim>\<open>get_business_details\<close>\<close>

record filters =
  without_website :: bool
  operational :: bool
  has_phone :: bool
  has_recent_reviews :: bool
  has_any_reviews :: bool

text \<open>
  The condition of each of the five \<^verbatim>\<open>if filters[...] and COND: return None\<close> lines;
  \<open>Inr True\<close> means that the line returns None.
\<close>

definition website_present :: "json \<Rightarrow> error + bool" where
  \<comment> \<open>\<^verbatim>\<open>'website' in result\<close>\<close>
  "website_present result = py_in ''website'' result"

definition not_operational :: "json \<Rightarrow> error + bool" where
  \<comment> \<open>\<^verbatim>\<open>result.get('business_status') != 'OPERATIONAL'\<close>\<close>
  "not_operational result =
     bind_err (py_get result ''business_status'' JNull) (\<lambda>s. Inr (s \<noteq> JStr ''OPERATIONAL''))"

definition phone_missing :: "json \<Rightarrow> error + bool" where
  \<comment> \<open>\<^verbatim>\<open>'formatted_phone_number' not in result\<close>\<close>
  "phone_missing result =
     bind_err (py_in ''formatted_phone_number'' result) (\<lambda>b. Inr (\<not> b))"

text \<open>
  \<^verbatim>\<open>any(review['time'] > time.time() - 30*24*60*60 for review in ...)\<close>: the reviews are
  read in order and the scan stops at the first recent one.
\<close>

fun any_recent :: "int \<Rightarrow> json list \<Rightarrow> error + bool" where
  "any_recent now [] = Inr False"
| "any_recent now (review # reviews) =
     bind_err (py_item review ''time'') (\<lambda>t.
     bind_err (py_gt t (now - 30 * 24 * 60 * 60)) (\<lambda>recent.
       if recent then Inr True else any_recent now reviews))"

definition no_recent_review :: "int \<Rightarrow> json \<Rightarrow> error + bool" where
  \<comment> \<open>\<^verbatim>\<open>not (result.get('reviews') and any(... for review in result['reviews']))\<close>\<close>
  "no_recent_review now result =
     bind_err (py_get result ''reviews'' JNull) (\<lambda>rv.
       if \<not> truthy rv then Inr True
       else bind_err (py_item result ''reviews'') (\<lambda>rs.
            bind_err (py_iter rs) (\<lambda>reviews.
            bind_err (any_recent now reviews) (\<lambda>b. Inr (\<not> b)))))"

definition no_review :: "json \<Rightarrow> error + bool" where
  \<comment> \<open>\<^verbatim>\<open>not result.get('reviews')\<close>\<close>
  "no_review result = bind_err (py_get result ''reviews'' JNull) (\<lambda>rv. Inr (\<not> truthy rv))"

text \<open>
  One line of the block: when the flag is set the condition is evaluated (it may raise);
  a true condition returns None, otherwise the next line runs. Python's \<^verbatim>\<open>and\<close> does
  not evaluate the condition of an unset flag.
\<close>

definition reject_if :: "bool \<Rightarrow> error + bool \<Rightarrow> error + bool \<Rightarrow> error + bool" where
  "reject_if flag cond rest =
     (if flag then bind_err cond (\<lambda>c. if c then Inr False else rest) else rest)"

text \<open>
  Lines 103 to 113: \<open>Inr True\<close> when control reaches the final \<^verbatim>\<open>return {...}\<close>,
  \<open>Inr False\<close> when a line returned None, \<open>Inl e\<close> when a condition raised.
  \<open>now\<close> is the value of \<^verbatim>\<open>time.time()\<close>.
\<close>

definition apply_filters :: "filters \<Rightarrow> int \<Rightarrow> json \<Rightarrow> error + bool" where
  "apply_filters flt now result =
     reject_if (without_website flt) (website_present result)
    (reject_if (operational flt) (not_operational result)
    (reject_if (has_phone flt) (phone_missing result)
    (reject_if (has_recent_reviews flt) (no_recent_review now result)
    (reject_if (has_any_reviews flt) (no_review result)
    (Inr True)))))"

section \<open>The returned record\<close>

record business =
  name :: json
  phone :: json
  website :: json
  address :: json
  industry :: string
  business_status :: json

text \<open>\<^verbatim>\<open>', '.join(xs)\<close>: every item has to be a string.\<close>

fun join_strs :: "json list \<Rightarrow> error + string" where
  "join_strs [] = Inr []"
| "join_strs [JStr s] = Inr s"
| "join_strs (JStr s # x # xs) = bind_err (join_strs (x # xs)) (\<lambda>r. Inr (s @ '', '' @ r))"
| "join_strs (v # xs) = Inl TypeError"

definition build_record :: "json \<Rightarrow> error + business" where
  "build_record result =
     bind_err (py_item result ''name'') (\<lambda>n.
     bind_err (py_get result ''formatted_phone_number'' (JStr ''N/A'')) (\<lambda>p.
     bind_err (py_get result ''website'' (JStr ''N/A'')) (\<lambda>w.
     bind_err (py_get result ''formatted_address'' (JStr ''N/A'')) (\<lambda>a.
     bind_err (py_get result ''types'' (JArr [])) (\<lambda>ts.
     bind_err (py_iter ts) (\<lambda>items.
     bind_err (join_strs items) (\<lambda>ind.
     bind_err (py_get result ''business_status'' (JStr ''N/A'')) (\<lambda>s.
       Inr \<lparr>name = n, phone = p, website = w, address = a,
            industry = ind, business_status = s\<rparr>))))))))"

text \<open>Lines 103 to 122: the filters, then the record; None is \<open>Inr None\<close>.\<close>

definition filtered_record :: "filters \<Rightarrow> int \<Rightarrow> json \<Rightarrow> error + business option" where
  "filtered_record flt now result =
     bind_err (apply_filters flt now result) (\<lambda>ok.
       if ok then bind_err (build_record result) (\<lambda>b. Inr (Some b)) else Inr None)"

section \<open>The world outside: clock, cache, network and what a run leaves behind\<close>

datatype event =
    Status string            \<comment> \<open>\<^verbatim>\<open>status_callback(msg)\<close>\<close>
  | PageFetch string         \<comment> \<open>\<^verbatim>\<open>self.fetch(session, url)\<close> called by \<^verbatim>\<open>find_businesses\<close>\<close>
  | DetailFetch string       \<comment> \<open>\<^verbatim>\<open>self.fetch(session, details_url)\<close> called by \<^verbatim>\<open>get_business_details\<close>\<close>
  | Http string              \<comment> \<open>\<^verbatim>\<open>session.get(url)\<close>: a request that reaches the network\<close>
  | Sleep int                \<comment> \<open>\<^verbatim>\<open>asyncio.sleep(seconds)\<close>\<close>
  | Printed string error     \<comment> \<open>\<^verbatim>\<open>print(f"...: {e}")\<close>\<close>

record world =
  clock :: int
  cache :: "string \<Rightarrow> (json \<times> int) option"
  trace :: "event list"

text \<open>
  What the object and its surroundings are given: the API key, Python's rendering of a
  value inside an f-string (\<^verbatim>\<open>str\<close>), the remote service, which answers a URL
  knowing the URLs requested before it, with a decoded body or an exception, and the
  order in which the responses to requests that are under way together come back:
  \<open>arrival\<close> names the lookups of a page by their positions, given all that has happened
  up to the moment the last request went out.
\<close>

record env =
  api_key :: string
  fmt :: "json \<Rightarrow> string"
  http :: "string list \<Rightarrow> string \<Rightarrow> error + json"
  arrival :: "event list \<Rightarrow> nat list"

definition log :: "event \<Rightarrow> world \<Rightarrow> world" where
  "log e w = w\<lparr>trace := trace w @ [e]\<rparr>"

fun requested :: "event list \<Rightarrow> string list" where
  "requested [] = []"
| "requested (Http u # es) = u # requested es"
| "requested (e # es) = requested es"

definition sleep :: "int \<Rightarrow> world \<Rightarrow> world" where
  "sleep d w = log (Sleep d) (w\<lparr>clock := clock w + d\<rparr>)"

text \<open>Lines 80 and 81, the body of \<^verbatim>\<open>fetch\<close>: one GET, the decoded body or the exception.\<close>

definition session_get :: "env \<Rightarrow> string \<Rightarrow> world \<Rightarrow> (error + json) \<times> world" where
  "session_get env url w = (http env (requested (trace w)) url, log (Http url) w)"

text \<open>
  Modelled from the spec: the decorator \<^verbatim>\<open>@cached(ttl=3600)\<close> of line 68 comes from the
  aiocache package, which is not among the sources. Section 4.2 gives its behaviour: an
  entry that is present and not expired is returned without a network call; on a miss or
  an expired entry the wrapped function runs and its result is stored under the exact
  URL for 3600 seconds. An exception of the wrapped function stores nothing.
\<close>

definition ttl :: int where
  "ttl = 3600"

definition live :: "world \<Rightarrow> string \<Rightarrow> json option" where
  "live w url =
     (case cache w url of
        None \<Rightarrow> None
      | Some (v, expiry) \<Rightarrow> if clock w < expiry then Some v else None)"

definition fetch :: "env \<Rightarrow> string \<Rightarrow> world \<Rightarrow> (error + json) \<times> world" where
  "fetch env url w =
     (case live w url of
        Some v \<Rightarrow> (Inr v, w)
      | None \<Rightarrow>
         (case session_get env url w of
            (Inl e, w1) \<Rightarrow> (Inl e, w1)
          | (Inr v, w1) \<Rightarrow> (Inr v, w1\<lparr>cache := (cache w1)(url \<mapsto> (v, clock w1 + ttl))\<rparr>)))"

text \<open>
  The cache of a world holds the entries of one session: \<^verbatim>\<open>fetch\<close> is called with the
  session as an argument, and all calls of one run of \<^verbatim>\<open>find_businesses\<close> pass the
  session opened at line 142.
\<close>

section \<open>Decimal rendering of the numbers put into strings\<close>

definition digit :: "int \<Rightarrow> char" where
  "digit d = ''0123456789'' ! nat (d mod 10)"

function show_digits :: "int \<Rightarrow> string" where
  "show_digits n = (if n < 10 then [digit n] else show_digits (n div 10) @ [digit n])"
  by pat_completeness auto
termination
  by (relation "measure nat") auto

declare show_digits.simps [simp del]

text \<open>\<^verbatim>\<open>str(i)\<close> for a Python int.\<close>

definition show_int :: "int \<Rightarrow> string" where
  "show_int i = (if i < 0 then CHR ''-'' # show_digits (- i) else show_digits i)"

section \<open>\<^verbatim>\<open>build_url\<close>, \<^verbatim>\<open>get_business_details\<close> and \<^verbatim>\<open>find_businesses\<close>\<close>

text \<open>The token is \<open>JNull\<close> for Python's None; an empty business type is falsy.\<close>

definition build_url :: "env \<Rightarrow> string \<Rightarrow> int \<Rightarrow> string \<Rightarrow> json \<Rightarrow> string" where
  "build_url env location radius business_type next_page_token =
     (let base_url =
            ''https://maps.googleapis.com/maps/api/place/nearbysearch/json?location=''
              @ location @ ''&radius='' @ show_int radius @ ''&key='' @ api_key env;
          base_url = (if business_type \<noteq> [] then base_url @ ''&type='' @ business_type
                      else base_url);
          base_url = (if truthy next_page_token
                      then base_url @ ''&pagetoken='' @ fmt env next_page_token
                      else base_url)
      in base_url)"

definition details_url :: "env \<Rightarrow> json \<Rightarrow> string" where
  "details_url env place_id =
     ''https://maps.googleapis.com/maps/api/place/details/json?place_id=''
       @ fmt env place_id
       @ ''&fields=name,formatted_phone_number,website,formatted_address,types,business_status,reviews&key=''
       @ api_key env"

text \<open>
  Lines 95 to 122. The \<^verbatim>\<open>try\<close> covers the fetch and \<^verbatim>\<open>result.get('result', {})\<close>: any
  exception there is printed and None is returned. The filters and the record are
  outside the \<^verbatim>\<open>try\<close>, so what they raise leaves the function.
\<close>

definition get_business_details ::
  "env \<Rightarrow> json \<Rightarrow> filters \<Rightarrow> world \<Rightarrow> (error + business option) \<times> world" where
  "get_business_details env place_id flt w =
     (case fetch env (details_url env place_id) (log (DetailFetch (details_url env place_id)) w) of
        (r, w1) \<Rightarrow>
          (case bind_err r (\<lambda>response. py_get response ''result'' (JObj [])) of
             Inl e \<Rightarrow> (Inr None, log (Printed ''Error fetching business details: '' e) w1)
           | Inr result \<Rightarrow> (filtered_record flt (clock w1) result, w1)))"

text \<open>
  Line 155, the arguments of the list comprehension: \<^verbatim>\<open>result['place_id']\<close> is
  evaluated for every item before any task runs.
\<close>

fun place_ids :: "json list \<Rightarrow> error + json list" where
  "place_ids [] = Inr []"
| "place_ids (r # rs) =
     bind_err (py_item r ''place_id'') (\<lambda>p.
     bind_err (place_ids rs) (\<lambda>ps. Inr (p # ps)))"

text \<open>
  Line 156, \<^verbatim>\<open>asyncio.gather(*tasks)\<close>: all lookups of the page are started before any
  of them is waited for, so they run together. In the order of the tasks, each lookup
  calls \<^verbatim>\<open>fetch\<close>, which reads the cache: none of the lookups of this page has stored
  anything yet.
\<close>

fun call_all :: "env \<Rightarrow> json list \<Rightarrow> world \<Rightarrow> (string \<times> json option) list \<times> world" where
  "call_all env [] w = ([], w)"
| "call_all env (p # ps) w =
     (case call_all env ps (log (DetailFetch (details_url env p)) w) of
        (calls, w') \<Rightarrow> ((details_url env p, live w (details_url env p)) # calls, w'))"

text \<open>
  A lookup under way: its URL, whether a request was sent for it, and what its call of
  \<^verbatim>\<open>fetch\<close> is going to return or raise.
\<close>

type_synonym task = "string \<times> bool \<times> (error + json)"

text \<open>The requests of the lookups that found no live entry go out, in the order of the tasks.\<close>

fun send_all :: "env \<Rightarrow> (string \<times> json option) list \<Rightarrow> world \<Rightarrow> task list \<times> world" where
  "send_all env [] w = ([], w)"
| "send_all env ((url, Some v) # calls) w =
     (case send_all env calls w of (tasks, w') \<Rightarrow> ((url, False, Inr v) # tasks, w'))"
| "send_all env ((url, None) # calls) w =
     (case session_get env url w of
        (answer, w1) \<Rightarrow>
          (case send_all env calls w1 of (tasks, w') \<Rightarrow> ((url, True, answer) # tasks, w')))"

text \<open>
  The rest of a lookup, once its response is there: the decorator stores a fetched
  response, and lines 98 to 122 go on as in \<^verbatim>\<open>get_business_details\<close>.
\<close>

definition complete :: "filters \<Rightarrow> task \<Rightarrow> world \<Rightarrow> (error + business option) \<times> world" where
  "complete flt t w =
     (case t of (url, was_sent, answer) \<Rightarrow>
        (let w1 = (case answer of
                     Inl e \<Rightarrow> w
                   | Inr v \<Rightarrow>
                       if was_sent then w\<lparr>cache := (cache w)(url \<mapsto> (v, clock w + ttl))\<rparr>
                       else w)
         in case bind_err answer (\<lambda>response. py_get response ''result'' (JObj [])) of
              Inl e \<Rightarrow> (Inr None, log (Printed ''Error fetching business details: '' e) w1)
            | Inr result \<Rightarrow> (filtered_record flt (clock w1) result, w1)))"

text \<open>
  The order in which \<open>n\<close> lookups finish: the positions that \<open>arrival\<close> names, each
  once, then those it does not name, in the order of the tasks.
\<close>

definition completion_order :: "nat list \<Rightarrow> nat \<Rightarrow> nat list" where
  "completion_order named n =
     filter (\<lambda>i. i < n) (remdups named) @ filter (\<lambda>i. i \<notin> set named) [0..<n]"

text \<open>
  The lookups finish in that order. Each leaves its outcome at the position of its
  task; the first that raises ends \<^verbatim>\<open>gather\<close> with its exception. Every position in
  the order is below the number of tasks.
\<close>

fun complete_all ::
  "filters \<Rightarrow> task list \<Rightarrow> nat list \<Rightarrow> business option list \<Rightarrow> world
     \<Rightarrow> (error + business option list) \<times> world" where
  "complete_all flt tasks [] slots w = (Inr slots, w)"
| "complete_all flt tasks (i # order) slots w =
     (case complete flt (tasks ! i) w of
        (Inl e, w1) \<Rightarrow> (Inl e, w1)
      | (Inr b, w1) \<Rightarrow> complete_all flt tasks order (slots[i := b]) w1)"

definition gather :: "env \<Rightarrow> filters \<Rightarrow> json list \<Rightarrow> world \<Rightarrow> (error + business option list) \<times> world" where
  "gather env flt ids w =
     (case call_all env ids w of
        (calls, w1) \<Rightarrow>
          (case send_all env calls w1 of
             (tasks, w2) \<Rightarrow>
               complete_all flt tasks
                 (completion_order (arrival env (trace w2)) (length tasks))
                 (replicate (length tasks) None) w2))"

text \<open>Lines 158 to 160: the outcomes that are not None are appended in order.\<close>

fun append_found :: "business list \<Rightarrow> business option list \<Rightarrow> business list" where
  "append_found businesses [] = businesses"
| "append_found businesses (None # results) = append_found businesses results"
| "append_found businesses (Some b # results) = append_found (businesses @ [b]) results"

record request =
  location :: string
  radius :: int
  business_type :: string

text \<open>
  Line 155 up to the call: the items of \<^verbatim>\<open>json_response['results']\<close> and the place
  identifier of each.
\<close>

definition page_ids :: "json \<Rightarrow> error + json list" where
  "page_ids json_response =
     bind_err (py_item json_response ''results'') (\<lambda>rs.
     bind_err (py_iter rs) place_ids)"

definition searching :: "int \<Rightarrow> string" where
  "searching page = ''Searching page '' @ show_int page @ ''...''"

text \<open>
  The \<^verbatim>\<open>while True\<close> loop of lines 143 to 166. It runs as long as the service hands out
  tokens, so it is given the number of iterations it may take. The first component of
  the result is \<open>None\<close> when the loop has not ended within them, \<open>Some (Inr businesses)\<close>
  for the \<^verbatim>\<open>return businesses\<close> of line 168 and \<open>Some (Inl e)\<close> for an exception that
  leaves \<^verbatim>\<open>find_businesses\<close>; the second is the world reached.
\<close>

fun find_loop ::
  "nat \<Rightarrow> env \<Rightarrow> request \<Rightarrow> filters \<Rightarrow> business list \<Rightarrow> json \<Rightarrow> int \<Rightarrow> world
     \<Rightarrow> (error + business list) option \<times> world" where
  "find_loop 0 env req flt businesses next_page_token page w = (None, w)"
| "find_loop (Suc n) env req flt businesses next_page_token page w =
     (let w1 = log (Status (searching page)) w;
          url = build_url env (location req) (radius req) (business_type req) next_page_token
      in case fetch env url (log (PageFetch url) w1) of
           (Inl e, w2) \<Rightarrow>
             (Some (Inr businesses), log (Printed ''Error fetching businesses: '' e) w2)
         | (Inr json_response, w2) \<Rightarrow>
            (case py_in ''results'' json_response of
               Inl e \<Rightarrow> (Some (Inl e), w2)
             | Inr False \<Rightarrow> (Some (Inr businesses), w2)
             | Inr True \<Rightarrow>
                (case page_ids json_response of
                   Inl e \<Rightarrow> (Some (Inl e), w2)
                 | Inr ids \<Rightarrow>
                    (case gather env flt ids w2 of
                       (Inl e, w3) \<Rightarrow> (Some (Inl e), w3)
                     | (Inr results, w3) \<Rightarrow>
                        (case py_get json_response ''next_page_token'' JNull of
                           Inl e \<Rightarrow> (Some (Inl e), w3)
                         | Inr token \<Rightarrow>
                            if \<not> truthy token
                            then (Some (Inr (append_found businesses results)), w3)
                            else find_loop n env req flt (append_found businesses results)
                                   token (page + 1) (sleep 2 w3))))))"

definition find_businesses ::
  "nat \<Rightarrow> env \<Rightarrow> request \<Rightarrow> filters \<Rightarrow> world \<Rightarrow> (error + business list) option \<times> world" where
  "find_businesses n env req flt w = find_loop n env req flt [] JNull 1 w"

section \<open>A caller that asks for the same URL again and again\<close>


section \<open>The start of an iteration\<close>

definition page_url :: "env \<Rightarrow> request \<Rightarrow> json \<Rightarrow> string" where
  "page_url env req token = build_url env (location req) (radius req) (business_type req) token"

text \<open>The world in which the page is fetched: status shown, fetch called.\<close>

definition announce :: "env \<Rightarrow> request \<Rightarrow> json \<Rightarrow> int \<Rightarrow> world \<Rightarrow> world" where
  "announce env req token page w =
     log (PageFetch (page_url env req token)) (log (Status (searching page)) w)"

section \<open>Reading a trace\<close>

text \<open>What the page loop itself does: status messages, page fetches and delays.\<close>

fun pager_event :: "event \<Rightarrow> bool" where
  "pager_event (Status m) = True"
| "pager_event (PageFetch u) = True"
| "pager_event (Sleep d) = True"
| "pager_event e = False"

definition pager_view :: "event list \<Rightarrow> event list" where
  "pager_view es = filter pager_event es"

text \<open>
  The pager events expected after the first page when the continuation tokens \<open>ts\<close> are
  followed one by one: a delay of two seconds, the status message, the page fetch.
\<close>

fun later_pages :: "env \<Rightarrow> request \<Rightarrow> int \<Rightarrow> json list \<Rightarrow> event list" where
  "later_pages env req page [] = []"
| "later_pages env req page (t # ts) =
     [Sleep 2, Status (searching page),
      PageFetch (build_url env (location req) (radius req) (business_type req) t)]
     @ later_pages env req (page + 1) ts"

fun page_fetches :: "event list \<Rightarrow> string list" where
  "page_fetches [] = []"
| "page_fetches (PageFetch u # es) = u # page_fetches es"
| "page_fetches (e # es) = page_fetches es"

fun page_errors :: "event list \<Rightarrow> error list" where
  "page_errors [] = []"
| "page_errors (Printed m e # es) =
     (if m = ''Error fetching businesses: '' then e # page_errors es else page_errors es)"
| "page_errors (e # es) = page_errors es"

text \<open>What a detail lookup may add to the trace.\<close>

fun detail_event :: "event \<Rightarrow> bool" where
  "detail_event (Http u) = True"
| "detail_event (DetailFetch u) = True"
| "detail_event (Printed m e) = (m = ''Error fetching business details: '')"
| "detail_event e = False"

definition silent :: "world \<Rightarrow> world \<Rightarrow> bool" where
  "silent w w' = (clock w' = clock w \<and> (\<exists>es. trace w' = trace w @ es \<and> list_all detail_event es))"

text \<open>The detail lookups in the order in which they were launched.\<close>

fun detail_fetches :: "event list \<Rightarrow> string list" where
  "detail_fetches [] = []"
| "detail_fetches (DetailFetch u # es) = u # detail_fetches es"
| "detail_fetches (e # es) = detail_fetches es"



text \<open>The answers to lookups whose requests go out one after the other, from history \<open>h\<close>.\<close>

fun replies :: "env \<Rightarrow> (string \<Rightarrow> json option) \<Rightarrow> string list \<Rightarrow> string list \<Rightarrow> (error + json) list" where
  "replies env lv h [] = []"
| "replies env lv h (u # us) =
     (case lv u of
        Some v \<Rightarrow> Inr v # replies env lv h us
      | None \<Rightarrow> http env h u # replies env lv (h @ [u]) us)"


section \<open>The rest of an iteration\<close>

text \<open>Lines 148 to 166 for what the fetch of the page gave: \<open>x\<close> and the world \<open>w2\<close>.\<close>

definition process_page ::
  "nat \<Rightarrow> env \<Rightarrow> request \<Rightarrow> filters \<Rightarrow> business list \<Rightarrow> int \<Rightarrow> (error + json) \<times> world
     \<Rightarrow> (error + business list) option \<times> world" where
  "process_page n env req flt businesses page fetched =
     (case fetched of
        (Inl e, w2) \<Rightarrow>
          (Some (Inr businesses), log (Printed ''Error fetching businesses: '' e) w2)
      | (Inr json_response, w2) \<Rightarrow>
         (case py_in ''results'' json_response of
            Inl e \<Rightarrow> (Some (Inl e), w2)
          | Inr False \<Rightarrow> (Some (Inr businesses), w2)
          | Inr True \<Rightarrow>
             (case page_ids json_response of
                Inl e \<Rightarrow> (Some (Inl e), w2)
              | Inr ids \<Rightarrow>
                 (case gather env flt ids w2 of
                    (Inl e, w3) \<Rightarrow> (Some (Inl e), w3)
                  | (Inr results, w3) \<Rightarrow>
                     (case py_get json_response ''next_page_token'' JNull of
                        Inl e \<Rightarrow> (Some (Inl e), w3)
                      | Inr token \<Rightarrow>
                         if \<not> truthy token
                         then (Some (Inr (append_found businesses results)), w3)
                         else find_loop n env req flt (append_found businesses results)
                                token (page + 1) (sleep 2 w3))))))"

section \<open>A service without memory\<close>


definition served :: "env \<Rightarrow> string \<Rightarrow> error + json" where
  "served env url = http env [] url"

text \<open>Every cache entry holds the answer of the service to its URL.\<close>

definition cache_exact :: "env \<Rightarrow> world \<Rightarrow> bool" where
  "cache_exact env w = (\<forall>url v expiry. cache w url = Some (v, expiry) \<longrightarrow> served env url = Inr v)"




section \<open>Scripted search pages\<close>

text \<open>The service answers the URL with \<open>r\<close> whenever it is asked.\<close>

definition stable :: "env \<Rightarrow> string \<Rightarrow> json \<Rightarrow> bool" where
  "stable env url r = (\<forall>history. http env history url = Inr r)"

text \<open>No cache entry of such a URL holds anything else.\<close>

definition cache_true :: "env \<Rightarrow> world \<Rightarrow> bool" where
  "cache_true env w = (\<forall>url r v expiry. stable env url r \<longrightarrow> cache w url = Some (v, expiry) \<longrightarrow> v = r)"







section \<open>The filter block as a chain of named checks\<close>

datatype flag = FWithoutWebsite | FOperational | FHasPhone | FHasRecentReviews | FHasAnyReviews

fun active :: "filters \<Rightarrow> flag \<Rightarrow> bool" where
  "active flt FWithoutWebsite = without_website flt"
| "active flt FOperational = operational flt"
| "active flt FHasPhone = has_phone flt"
| "active flt FHasRecentReviews = has_recent_reviews flt"
| "active flt FHasAnyReviews = has_any_reviews flt"

fun rejects :: "flag \<Rightarrow> int \<Rightarrow> json \<Rightarrow> error + bool" where
  "rejects FWithoutWebsite now result = website_present result"
| "rejects FOperational now result = not_operational result"
| "rejects FHasPhone now result = phone_missing result"
| "rejects FHasRecentReviews now result = no_recent_review now result"
| "rejects FHasAnyReviews now result = no_review result"

text \<open>The same lines run in an arbitrary order \<open>fs\<close>.\<close>

fun chain :: "flag list \<Rightarrow> filters \<Rightarrow> int \<Rightarrow> json \<Rightarrow> error + bool" where
  "chain [] flt now result = Inr True"
| "chain (f # fs) flt now result =
     reject_if (active flt f) (rejects f now result) (chain fs flt now result)"

definition source_order :: "flag list" where
  "source_order = [FWithoutWebsite, FOperational, FHasPhone, FHasRecentReviews, FHasAnyReviews]"

section \<open>A mock service and sample data\<close>

definition no_filters :: filters where
  "no_filters = \<lparr>without_website = False, operational = False, has_phone = False,
                  has_recent_reviews = False, has_any_reviews = False\<rparr>"

text \<open>In the samples every value put into a URL is a string, which \<^verbatim>\<open>str\<close> leaves as it is.\<close>

definition plain_str :: "json \<Rightarrow> string" where
  "plain_str v = (case v of JStr s \<Rightarrow> s | _ \<Rightarrow> [])"

text \<open>
  A scripted service: each URL has its list of successive answers; a URL without script,
  or asked more often than its script is long, fails.
\<close>

definition mock :: "(string \<times> json list) list \<Rightarrow> string list \<Rightarrow> string \<Rightarrow> error + json" where
  "mock table history url =
     (case map_of table url of
        None \<Rightarrow> Inl NetworkError
      | Some answers \<Rightarrow>
          if count_list history url < length answers
          then Inr (answers ! count_list history url) else Inl NetworkError)"

definition offline :: env where
  "offline = \<lparr>api_key = ''K'', fmt = plain_str, http = (\<lambda>history url. Inl NetworkError),
               arrival = (\<lambda>happened. [])\<rparr>"

definition online :: "(string \<times> json list) list \<Rightarrow> env" where
  "online table = offline\<lparr>http := mock table\<rparr>"




definition fresh :: "int \<Rightarrow> world" where
  "fresh t = \<lparr>clock = t, cache = Map.empty, trace = []\<rparr>"

definition plumbers :: request where
  "plumbers = \<lparr>location = ''39.95,-75.16'', radius = 10000, business_type = ''plumber''\<rparr>"

definition detail_of :: "string \<Rightarrow> (string \<times> json) list \<Rightarrow> string \<times> json list" where
  "detail_of p kvs = (details_url offline (JStr p), [JObj [(''result'', JObj kvs)]])"

definition search_url :: "json \<Rightarrow> string" where
  "search_url token = build_url offline (location plumbers) (radius plumbers)
                        (business_type plumbers) token"

definition page_of :: "json \<Rightarrow> json list \<Rightarrow> string \<times> json list" where
  "page_of token answers = (search_url token, answers)"

definition places :: "string list \<Rightarrow> string \<times> json" where
  "places ps = (''results'', JArr (map (\<lambda>p. JObj [(''place_id'', JStr p)]) ps))"

definition named :: "string \<Rightarrow> business" where
  "named n = \<lparr>name = JStr n, phone = JStr ''N/A'', website = JStr ''N/A'',
              address = JStr ''N/A'', industry = [], business_status = JStr ''N/A''\<rparr>"





section \<open>The filter block: what each line decides\<close>

lemma reject_if_simps:
  "reject_if False c r = r"
  "reject_if True (Inl e) r = Inl e"
  "reject_if True (Inr True) r = Inr False"
  "reject_if True (Inr False) r = r"
  by (simp_all add: reject_if_def bind_err_def)

lemma bind_err_simps:
  "bind_err (Inl e) f = Inl e"
  "bind_err (Inr x) f = f x"
  by (simp_all add: bind_err_def)

lemma website_present_obj: "website_present (JObj kvs) = Inr (map_of kvs ''website'' \<noteq> None)"
  by (simp add: website_present_def)

lemma not_operational_obj:
  "not_operational (JObj kvs) =
     Inr (map_of kvs ''business_status'' \<noteq> Some (JStr ''OPERATIONAL''))"
  by (auto simp: not_operational_def bind_err_def split: option.splits)

lemma filtered_record_operational:
  assumes "operational flt"
  shows "filtered_record flt now (JObj kvs) =
     (if map_of kvs ''business_status'' = Some (JStr ''OPERATIONAL'')
      then filtered_record (flt\<lparr>operational := False\<rparr>) now (JObj kvs)
      else Inr None)"
  using assms
  by (cases "without_website flt"; cases "map_of kvs ''website''")
     (simp_all add: filtered_record_def apply_filters_def reject_if_simps bind_err_simps
        website_present_obj not_operational_obj)

lemma filtered_record_without_website:
  assumes "without_website flt"
  shows "filtered_record flt now (JObj kvs) =
     (if map_of kvs ''website'' = None
      then filtered_record (flt\<lparr>without_website := False\<rparr>) now (JObj kvs)
      else Inr None)"
  using assms
  by (simp add: filtered_record_def apply_filters_def reject_if_simps bind_err_simps
        website_present_obj)

lemma fetch_collapse:
  "fst (fetch env url w) = Inr v \<Longrightarrow> fetch env url w = (Inr v, snd (fetch env url w))"
  by (metis prod.collapse)

text \<open>
  C1 (as the code has it). With the \<open>operational\<close> flag set and a detail response whose
  result is an object, \<^verbatim>\<open>get_business_details\<close> returns None whenever the
  \<open>business_status\<close> field is absent or differs from "OPERATIONAL": the absent field reads
  as None, which differs from the string. Only the value "OPERATIONAL" lets the record
  past this line, and then the outcome is that of the same call with the flag unset.
\<close>

theorem operational_rejects_absent_status:
  assumes "operational flt"
    and "fetch env (details_url env place_id) (log (DetailFetch (details_url env place_id)) w)
           = (Inr response, w1)"
    and "py_get response ''result'' (JObj []) = Inr (JObj kvs)"
  shows "get_business_details env place_id flt w =
     (if map_of kvs ''business_status'' = Some (JStr ''OPERATIONAL'')
      then get_business_details env place_id (flt\<lparr>operational := False\<rparr>) w
      else (Inr None, w1))"
  using assms(2,3)
  by (simp add: get_business_details_def bind_err_simps filtered_record_operational [OF assms(1)])

theorem operational_rejects_absent_status_witness:
  "fst (get_business_details
          (online [detail_of ''p7'' [(''name'', JStr ''Diner''), (''website'', JStr ''d.example'')]])
          (JStr ''p7'') (no_filters\<lparr>operational := True\<rparr>) (fresh 1700000000)) = Inr None"
proof -
  let ?env = "online [detail_of ''p7'' [(''name'', JStr ''Diner''), (''website'', JStr ''d.example'')]]"
  let ?flt = "no_filters\<lparr>operational := True\<rparr>"
  let ?kvs = "[(''name'', JStr ''Diner''), (''website'', JStr ''d.example'')]"
  let ?w = "log (DetailFetch (details_url ?env (JStr ''p7''))) (fresh 1700000000)"
  have "fst (fetch ?env (details_url ?env (JStr ''p7'')) ?w) = Inr (JObj [(''result'', JObj ?kvs)])"
    by code_simp
  then have h2: "fetch ?env (details_url ?env (JStr ''p7'')) ?w
      = (Inr (JObj [(''result'', JObj ?kvs)]), snd (fetch ?env (details_url ?env (JStr ''p7'')) ?w))"
    by (rule fetch_collapse)
  have h1: "operational ?flt" by simp
  have h3: "py_get (JObj [(''result'', JObj ?kvs)]) ''result'' (JObj []) = Inr (JObj ?kvs)"
    by simp
  show ?thesis
    using operational_rejects_absent_status [OF h1 h2 h3] by simp
qed

text \<open>
  The claim as the specification words it fails: a response with a name and no status
  field, which the call accepts with every flag unset, is turned down once the
  \<open>operational\<close> flag is set.
\<close>

theorem absent_status_counterexample:
  "fst (get_business_details (online [detail_of ''p1'' [(''name'', JStr ''Cafe'')]])
          (JStr ''p1'') (no_filters\<lparr>operational := True\<rparr>) (fresh 1700000000)) = Inr None
   \<and> fst (get_business_details (online [detail_of ''p1'' [(''name'', JStr ''Cafe'')]])
          (JStr ''p1'') no_filters (fresh 1700000000)) = Inr (Some (named ''Cafe''))
   \<and> py_in ''business_status'' (JObj [(''name'', JStr ''Cafe'')]) = Inr False"
  by code_simp

text \<open>
  C5 (as the code has it). With the \<open>without_website\<close> flag set and a detail response
  whose result is an object, \<^verbatim>\<open>get_business_details\<close> returns None exactly when the
  key \<open>website\<close> is present, whatever its value (an empty string too); when the key is
  absent the outcome is that of the same call with the flag unset.
\<close>

theorem without_website_rejects_present_key:
  assumes "without_website flt"
    and "fetch env (details_url env place_id) (log (DetailFetch (details_url env place_id)) w)
           = (Inr response, w1)"
    and "py_get response ''result'' (JObj []) = Inr (JObj kvs)"
  shows "get_business_details env place_id flt w =
     (if map_of kvs ''website'' = None
      then get_business_details env place_id (flt\<lparr>without_website := False\<rparr>) w
      else (Inr None, w1))"
  using assms(2,3)
  by (simp add: get_business_details_def bind_err_simps
        filtered_record_without_website [OF assms(1)])

theorem without_website_rejects_present_key_witness:
  "fst (get_business_details
          (online [detail_of ''p3'' [(''name'', JStr ''Bakery''), (''website'', JStr ''b.example'')]])
          (JStr ''p3'') (no_filters\<lparr>without_website := True\<rparr>) (fresh 1700000000)) = Inr None"
proof -
  let ?env = "online [detail_of ''p3'' [(''name'', JStr ''Bakery''), (''website'', JStr ''b.example'')]]"
  let ?flt = "no_filters\<lparr>without_website := True\<rparr>"
  let ?kvs = "[(''name'', JStr ''Bakery''), (''website'', JStr ''b.example'')]"
  let ?w = "log (DetailFetch (details_url ?env (JStr ''p3''))) (fresh 1700000000)"
  have "fst (fetch ?env (details_url ?env (JStr ''p3'')) ?w) = Inr (JObj [(''result'', JObj ?kvs)])"
    by code_simp
  then have h2: "fetch ?env (details_url ?env (JStr ''p3'')) ?w
      = (Inr (JObj [(''result'', JObj ?kvs)]), snd (fetch ?env (details_url ?env (JStr ''p3'')) ?w))"
    by (rule fetch_collapse)
  have h1: "without_website ?flt" by simp
  have h3: "py_get (JObj [(''result'', JObj ?kvs)]) ''result'' (JObj []) = Inr (JObj ?kvs)"
    by simp
  show ?thesis
    using without_website_rejects_present_key [OF h1 h2 h3] by simp
qed

text \<open>
  The claim as the specification words it fails: a website field that is present but
  empty makes the call return None, although the record is accepted with the flag unset.
\<close>

theorem empty_website_counterexample:
  "fst (get_business_details
          (online [detail_of ''p2'' [(''name'', JStr ''Garage''), (''website'', JStr '''')]])
          (JStr ''p2'') (no_filters\<lparr>without_website := True\<rparr>) (fresh 1700000000)) = Inr None
   \<and> fst (get_business_details
          (online [detail_of ''p2'' [(''name'', JStr ''Garage''), (''website'', JStr '''')]])
          (JStr ''p2'') no_filters (fresh 1700000000))
       = Inr (Some ((named ''Garage'')\<lparr>website := JStr ''''\<rparr>))"
  by code_simp

section \<open>The filter block: conjunction and order\<close>

lemma chain_accepts:
  "(chain fs flt now result = Inr True) =
     (\<forall>f \<in> set fs. active flt f \<longrightarrow> rejects f now result = Inr False)"
proof (induction fs)
  case Nil
  show ?case by simp
next
  case (Cons f fs)
  show ?case
  proof (cases "active flt f")
    case False
    with Cons show ?thesis by (simp add: reject_if_simps)
  next
    case True
    show ?thesis
    proof (cases "rejects f now result")
      case (Inl e)
      with True show ?thesis by (auto simp: reject_if_simps)
    next
      case (Inr b)
      with True Cons show ?thesis by (cases b) (auto simp: reject_if_simps)
    qed
  qed
qed

lemma apply_filters_chain: "apply_filters flt now result = chain source_order flt now result"
  by (simp add: apply_filters_def source_order_def)

lemma all_flags: "set source_order = UNIV"
proof -
  have "f \<in> set source_order" for f by (cases f) (simp_all add: source_order_def)
  then show ?thesis by blast
qed

text \<open>
  C6 (as the code has it). The decision of the filter block is a function of the raw
  result, the flags and the time at which the call reads the clock. The record gets past
  the block exactly when the condition of every set flag holds; an unset flag imposes
  nothing; running the five lines in any other order \<open>fs\<close> lets the same records
  through; and the call returns a record exactly when, in addition, the record can be
  built.
\<close>

theorem filters_conjunction:
  assumes "set fs = set source_order"
  shows "(apply_filters flt now result = Inr True) =
           (\<forall>f. active flt f \<longrightarrow> rejects f now result = Inr False)
       \<and> (chain fs flt now result = Inr True) = (apply_filters flt now result = Inr True)
       \<and> (\<exists>b. filtered_record flt now result = Inr (Some b)) =
           ((\<forall>f. active flt f \<longrightarrow> rejects f now result = Inr False)
            \<and> (\<exists>b. build_record result = Inr b))"
proof -
  have a: "(apply_filters flt now result = Inr True) =
           (\<forall>f. active flt f \<longrightarrow> rejects f now result = Inr False)"
    by (simp add: apply_filters_chain chain_accepts all_flags)
  have b: "(chain fs flt now result = Inr True) = (apply_filters flt now result = Inr True)"
    by (simp add: apply_filters_chain chain_accepts assms)
  have c: "(\<exists>b. filtered_record flt now result = Inr (Some b)) =
           (apply_filters flt now result = Inr True \<and> (\<exists>b. build_record result = Inr b))"
    by (cases "apply_filters flt now result"; cases "build_record result")
       (auto simp: filtered_record_def bind_err_simps)
  from a b c show ?thesis by simp
qed

theorem filters_conjunction_witness:
  "chain (rev source_order) (no_filters\<lparr>has_phone := True, has_any_reviews := True\<rparr>) 1700000000
       (JObj [(''name'', JStr ''Cafe''), (''formatted_phone_number'', JStr ''555-0100''),
              (''reviews'', JArr [JObj [(''time'', JNum 1600000000)]])])
     = Inr True
   \<and> apply_filters (no_filters\<lparr>has_phone := True, has_any_reviews := True\<rparr>) 1700000000
       (JObj [(''name'', JStr ''Cafe''), (''formatted_phone_number'', JStr ''555-0100''),
              (''reviews'', JArr [JObj [(''time'', JNum 1600000000)]])])
     = Inr True"
proof -
  let ?flt = "no_filters\<lparr>has_phone := True, has_any_reviews := True\<rparr>"
  let ?r = "JObj [(''name'', JStr ''Cafe''), (''formatted_phone_number'', JStr ''555-0100''),
                  (''reviews'', JArr [JObj [(''time'', JNum 1600000000)]])]"
  have h: "set (rev source_order) = set source_order" by simp
  have e: "apply_filters ?flt 1700000000 ?r = Inr True" by code_simp
  from filters_conjunction [OF h, of ?flt 1700000000 ?r] e show ?thesis by simp
qed

text \<open>
  The claim as the specification words it fails in one point: the decision is not a
  function of the raw result and the flags alone. The same response under the same
  flags is accepted at one time and turned down five weeks later, because the
  recent-review line compares with the clock.
\<close>

theorem decision_depends_on_clock_counterexample:
  "fst (get_business_details
          (online [detail_of ''p5'' [(''name'', JStr ''Salon''),
                     (''reviews'', JArr [JObj [(''time'', JNum 1700000000)]])]])
          (JStr ''p5'') (no_filters\<lparr>has_recent_reviews := True\<rparr>) (fresh 1700000100))
     = Inr (Some (named ''Salon''))
   \<and> fst (get_business_details
          (online [detail_of ''p5'' [(''name'', JStr ''Salon''),
                     (''reviews'', JArr [JObj [(''time'', JNum 1700000000)]])]])
          (JStr ''p5'') (no_filters\<lparr>has_recent_reviews := True\<rparr>) (fresh 1703024000))
     = Inr None"
  by code_simp

section \<open>Logging leaves clock and cache alone\<close>

lemma log_fields [simp]:
  "clock (log e w) = clock w"
  "cache (log e w) = cache w"
  "trace (log e w) = trace w @ [e]"
  by (simp_all add: log_def)

lemma live_log [simp]: "live (log e w) url = live w url"
  by (simp add: live_def split: option.splits)

lemma requested_append: "requested (es @ fs) = requested es @ requested fs"
  by (induction es rule: requested.induct) simp_all

lemma pair_collapse: "fst p = a \<Longrightarrow> p = (a, snd p)"
  by (cases p) simp

section \<open>A detail response without a name\<close>

text \<open>
  C2, the code at the failing input. The search page lists two places; the detail
  response of the first has a result object without \<open>name\<close>, that of the second is
  complete. No flag is set. Line 116 raises KeyError outside the \<^verbatim>\<open>try\<close> of
  \<^verbatim>\<open>get_business_details\<close>, \<^verbatim>\<open>gather\<close> passes it on, and \<^verbatim>\<open>find_businesses\<close> ends
  with the exception: the second place's record is never returned.
\<close>

theorem missing_name_aborts_run:
  "fst (get_business_details
          (online [page_of JNull [JObj [places [''p1'', ''p2'']]],
                   detail_of ''p1'' [(''formatted_address'', JStr ''1 Main St'')],
                   detail_of ''p2'' [(''name'', JStr ''Bistro'')]])
          (JStr ''p1'') no_filters (fresh 1700000000)) = Inl (KeyError ''name'')
   \<and> fst (find_businesses 5
          (online [page_of JNull [JObj [places [''p1'', ''p2'']]],
                   detail_of ''p1'' [(''formatted_address'', JStr ''1 Main St'')],
                   detail_of ''p2'' [(''name'', JStr ''Bistro'')]])
          plumbers no_filters (fresh 1700000000)) = Some (Inl (KeyError ''name''))"
  by code_simp

section \<open>A search page that cannot be fetched\<close>

text \<open>
  C3 (as the code has it). When the fetch of a search page raises, the loop prints the
  error and stops, and \<^verbatim>\<open>find_businesses\<close> returns the records gathered from the earlier
  pages as its ordinary result; the error itself is not handed to the caller.
\<close>

theorem page_error_returns_partial_list:
  assumes "url = build_url env (location req) (radius req) (business_type req) token"
    and "fetch env url (log (PageFetch url) (log (Status (searching page)) w)) = (Inl e, w2)"
  shows "find_loop (Suc n) env req flt businesses token page w =
           (Some (Inr businesses), log (Printed ''Error fetching businesses: '' e) w2)"
  using assms by (simp add: Let_def)

theorem page_error_returns_partial_list_witness:
  "fst (find_loop (Suc 0) offline plumbers no_filters [named ''Bistro''] (JStr ''t2'') 2
          (fresh 1700000000)) = Some (Inr [named ''Bistro''])"
proof -
  let ?url = "build_url offline (location plumbers) (radius plumbers) (business_type plumbers)
                (JStr ''t2'')"
  let ?w = "log (PageFetch ?url) (log (Status (searching 2)) (fresh 1700000000))"
  have "fst (fetch offline ?url ?w) = Inl NetworkError"
    by code_simp
  then have h: "fetch offline ?url ?w = (Inl NetworkError, snd (fetch offline ?url ?w))"
    by (rule pair_collapse)
  show ?thesis
    using page_error_returns_partial_list [OF refl h, of 0 no_filters "[named ''Bistro'']"]
    by simp
qed

text \<open>
  The claim as the specification words it fails: here the second page cannot be fetched,
  and the caller gets the first page's record as a normal list, with no error; the error
  went to the console only.
\<close>

theorem page_error_counterexample:
  "fst (find_businesses 5
          (online [page_of JNull [JObj [places [''p1''], (''next_page_token'', JStr ''t2'')]],
                   detail_of ''p1'' [(''name'', JStr ''Bistro'')]])
          plumbers no_filters (fresh 1700000000)) = Some (Inr [named ''Bistro''])
   \<and> last (trace (snd (find_businesses 5
          (online [page_of JNull [JObj [places [''p1''], (''next_page_token'', JStr ''t2'')]],
                   detail_of ''p1'' [(''name'', JStr ''Bistro'')]])
          plumbers no_filters (fresh 1700000000))))
       = Printed ''Error fetching businesses: '' NetworkError"
  by code_simp

section \<open>Search pages and the cache\<close>

lemma find_loop_Suc:
  "find_loop (Suc n) env req flt businesses token page w =
     process_page n env req flt businesses page
       (fetch env (page_url env req token) (announce env req token page w))"
  by (simp add: process_page_def Let_def page_url_def announce_def)

text \<open>
  C4 (as the code has it). \<^verbatim>\<open>find_businesses\<close> fetches every search page through the
  same cached \<^verbatim>\<open>fetch\<close> as the detail lookups. In every iteration, whatever the page
  holds: when the URL of the page has a live entry, the iteration goes on with the stored
  response and no request reaches the network; otherwise one request is made, and the
  iteration goes on with its outcome, a response being stored under the URL for 3600
  seconds. (What goes on after the fetch is \<open>process_page\<close>.)
\<close>

theorem page_fetch_uses_cache:
  "(live w (page_url env req token) = Some v \<longrightarrow>
      find_loop (Suc n) env req flt businesses token page w =
        process_page n env req flt businesses page (Inr v, announce env req token page w))
   \<and> (live w (page_url env req token) = None \<longrightarrow>
      find_loop (Suc n) env req flt businesses token page w =
        process_page n env req flt businesses page
          (case http env (requested (trace w)) (page_url env req token) of
             Inl e \<Rightarrow> (Inl e, log (Http (page_url env req token)) (announce env req token page w))
           | Inr r \<Rightarrow>
               (Inr r, (log (Http (page_url env req token)) (announce env req token page w))
                         \<lparr>cache := (cache w)(page_url env req token \<mapsto> (r, clock w + ttl))\<rparr>)))"
proof (intro conjI impI)
  assume "live w (page_url env req token) = Some v"
  then have "fetch env (page_url env req token) (announce env req token page w)
               = (Inr v, announce env req token page w)"
    by (simp add: fetch_def announce_def)
  then show "find_loop (Suc n) env req flt businesses token page w =
        process_page n env req flt businesses page (Inr v, announce env req token page w)"
    by (simp only: find_loop_Suc)
next
  assume "live w (page_url env req token) = None"
  then have "fetch env (page_url env req token) (announce env req token page w)
      = (case http env (requested (trace w)) (page_url env req token) of
             Inl e \<Rightarrow> (Inl e, log (Http (page_url env req token)) (announce env req token page w))
           | Inr r \<Rightarrow>
               (Inr r, (log (Http (page_url env req token)) (announce env req token page w))
                         \<lparr>cache := (cache w)(page_url env req token \<mapsto> (r, clock w + ttl))\<rparr>))"
    by (simp add: fetch_def session_get_def announce_def requested_append split: sum.splits)
  then show "find_loop (Suc n) env req flt businesses token page w =
        process_page n env req flt businesses page
          (case http env (requested (trace w)) (page_url env req token) of
             Inl e \<Rightarrow> (Inl e, log (Http (page_url env req token)) (announce env req token page w))
           | Inr r \<Rightarrow>
               (Inr r, (log (Http (page_url env req token)) (announce env req token page w))
                         \<lparr>cache := (cache w)(page_url env req token \<mapsto> (r, clock w + ttl))\<rparr>))"
    by (simp only: find_loop_Suc)
qed

theorem page_fetch_uses_cache_witness:
  "trace (snd (find_loop 3
      (online [page_of JNull [JObj [places [], (''next_page_token'', JStr ''more'')]],
               page_of (JStr ''more'') [JObj [places [''p1''], (''next_page_token'', JStr ''more'')]],
               detail_of ''p1'' [(''name'', JStr ''Bistro'')]])
      plumbers no_filters [] JNull 1 (fresh 1700000000)))
     = trace (snd (find_loop (Suc 0)
         (online [page_of JNull [JObj [places [], (''next_page_token'', JStr ''more'')]],
               page_of (JStr ''more'') [JObj [places [''p1''], (''next_page_token'', JStr ''more'')]],
               detail_of ''p1'' [(''name'', JStr ''Bistro'')]])
         plumbers no_filters [named ''Bistro''] (JStr ''more'') 3
         (snd (find_loop 2
            (online [page_of JNull [JObj [places [], (''next_page_token'', JStr ''more'')]],
               page_of (JStr ''more'') [JObj [places [''p1''], (''next_page_token'', JStr ''more'')]],
               detail_of ''p1'' [(''name'', JStr ''Bistro'')]])
            plumbers no_filters [] JNull 1 (fresh 1700000000)))))
   \<and> requested (trace (snd (find_loop (Suc 0)
         (online [page_of JNull [JObj [places [], (''next_page_token'', JStr ''more'')]],
                  page_of (JStr ''more'') [JObj [places [''p1''], (''next_page_token'', JStr ''more'')]],
                  detail_of ''p1'' [(''name'', JStr ''Bistro'')]])
         plumbers no_filters [named ''Bistro''] (JStr ''more'') 3
         (snd (find_loop 2
            (online [page_of JNull [JObj [places [], (''next_page_token'', JStr ''more'')]],
                     page_of (JStr ''more'') [JObj [places [''p1''], (''next_page_token'', JStr ''more'')]],
                     detail_of ''p1'' [(''name'', JStr ''Bistro'')]])
            plumbers no_filters [] JNull 1 (fresh 1700000000))))))
       = [search_url JNull, search_url (JStr ''more''), details_url offline (JStr ''p1'')]
   \<and> page_fetches (trace (snd (find_loop (Suc 0)
         (online [page_of JNull [JObj [places [], (''next_page_token'', JStr ''more'')]],
                  page_of (JStr ''more'') [JObj [places [''p1''], (''next_page_token'', JStr ''more'')]],
                  detail_of ''p1'' [(''name'', JStr ''Bistro'')]])
         plumbers no_filters [named ''Bistro''] (JStr ''more'') 3
         (snd (find_loop 2
            (online [page_of JNull [JObj [places [], (''next_page_token'', JStr ''more'')]],
                     page_of (JStr ''more'') [JObj [places [''p1''], (''next_page_token'', JStr ''more'')]],
                     detail_of ''p1'' [(''name'', JStr ''Bistro'')]])
            plumbers no_filters [] JNull 1 (fresh 1700000000))))))
       = [search_url JNull, search_url (JStr ''more''), search_url (JStr ''more'')]
   \<and> fst (find_loop (Suc 0)
          (online [page_of JNull [JObj [places [''p1'']]],
                   detail_of ''p1'' [(''name'', JStr ''Bistro'')]])
          plumbers no_filters [] JNull 1 (fresh 1700000000)) = Some (Inr [named ''Bistro''])
   \<and> cache (snd (find_loop (Suc 0)
          (online [page_of JNull [JObj [places [''p1'']]],
                   detail_of ''p1'' [(''name'', JStr ''Bistro'')]])
          plumbers no_filters [] JNull 1 (fresh 1700000000))) (search_url JNull)
       = Some (JObj [places [''p1'']], 1700003600)"
proof -
  let ?v = "JObj [places [''p1'']]"
  let ?r = "JObj [places [''p1''], (''next_page_token'', JStr ''more'')]"
  let ?env1 = "online [page_of JNull [JObj [places [], (''next_page_token'', JStr ''more'')]],
                       page_of (JStr ''more'') [?r],
                       detail_of ''p1'' [(''name'', JStr ''Bistro'')]]"
  let ?w = "snd (find_loop 2 ?env1 plumbers no_filters [] JNull 1 (fresh 1700000000))"
  let ?env2 = "online [page_of JNull [?v], detail_of ''p1'' [(''name'', JStr ''Bistro'')]]"
  have reach: "trace (snd (find_loop 3 ?env1 plumbers no_filters [] JNull 1 (fresh 1700000000)))
                 = trace (snd (find_loop (Suc 0) ?env1 plumbers no_filters [named ''Bistro'']
                                 (JStr ''more'') 3 ?w))"
    by code_simp
  have hit: "live ?w (page_url ?env1 plumbers (JStr ''more'')) = Some ?r"
    by code_simp
  have miss: "live (fresh 1700000000) (page_url ?env2 plumbers JNull) = None"
    by code_simp
  have answer: "http ?env2 (requested (trace (fresh 1700000000))) (page_url ?env2 plumbers JNull)
                  = Inr ?v"
    by code_simp
  from page_fetch_uses_cache [of ?w ?env1 plumbers "JStr ''more''" ?r 0 no_filters
      "[named ''Bistro'']" 3] hit
  have a: "find_loop (Suc 0) ?env1 plumbers no_filters [named ''Bistro''] (JStr ''more'') 3 ?w =
             process_page 0 ?env1 plumbers no_filters [named ''Bistro''] 3
               (Inr ?r, announce ?env1 plumbers (JStr ''more'') 3 ?w)"
    by blast
  have a1: "requested (trace (snd (process_page 0 ?env1 plumbers no_filters [named ''Bistro''] 3
               (Inr ?r, announce ?env1 plumbers (JStr ''more'') 3 ?w))))
              = [search_url JNull, search_url (JStr ''more''), details_url offline (JStr ''p1'')]"
    by code_simp
  have a2: "page_fetches (trace (snd (process_page 0 ?env1 plumbers no_filters [named ''Bistro''] 3
               (Inr ?r, announce ?env1 plumbers (JStr ''more'') 3 ?w))))
              = [search_url JNull, search_url (JStr ''more''), search_url (JStr ''more'')]"
    by code_simp
  from page_fetch_uses_cache [of "fresh 1700000000" ?env2 plumbers JNull ?v 0 no_filters "[]" 1]
    miss
  have b: "find_loop (Suc 0) ?env2 plumbers no_filters [] JNull 1 (fresh 1700000000) =
        process_page 0 ?env2 plumbers no_filters [] 1
          (case http ?env2 (requested (trace (fresh 1700000000))) (page_url ?env2 plumbers JNull) of
             Inl e \<Rightarrow> (Inl e, log (Http (page_url ?env2 plumbers JNull))
                               (announce ?env2 plumbers JNull 1 (fresh 1700000000)))
           | Inr r \<Rightarrow>
               (Inr r, (log (Http (page_url ?env2 plumbers JNull))
                          (announce ?env2 plumbers JNull 1 (fresh 1700000000)))
                         \<lparr>cache := (cache (fresh 1700000000))
                              (page_url ?env2 plumbers JNull \<mapsto> (r, clock (fresh 1700000000) + ttl))\<rparr>))"
    by blast
  let ?w2 = "(log (Http (page_url ?env2 plumbers JNull))
                (announce ?env2 plumbers JNull 1 (fresh 1700000000)))
               \<lparr>cache := (cache (fresh 1700000000))
                    (page_url ?env2 plumbers JNull \<mapsto> (?v, clock (fresh 1700000000) + ttl))\<rparr>"
  have b': "find_loop (Suc 0) ?env2 plumbers no_filters [] JNull 1 (fresh 1700000000) =
        process_page 0 ?env2 plumbers no_filters [] 1 (Inr ?v, ?w2)"
    unfolding b answer by simp
  have b1: "fst (process_page 0 ?env2 plumbers no_filters [] 1 (Inr ?v, ?w2))
              = Some (Inr [named ''Bistro''])"
    by code_simp
  have b2: "cache (snd (process_page 0 ?env2 plumbers no_filters [] 1 (Inr ?v, ?w2)))
              (search_url JNull) = Some (?v, 1700003600)"
    by code_simp
  from a a1 have c1: "requested (trace (snd (find_loop (Suc 0) ?env1 plumbers no_filters
        [named ''Bistro''] (JStr ''more'') 3 ?w)))
      = [search_url JNull, search_url (JStr ''more''), details_url offline (JStr ''p1'')]"
    by (simp only:)
  from a a2 have c2: "page_fetches (trace (snd (find_loop (Suc 0) ?env1 plumbers no_filters
        [named ''Bistro''] (JStr ''more'') 3 ?w)))
      = [search_url JNull, search_url (JStr ''more''), search_url (JStr ''more'')]"
    by (simp only:)
  from b' b1 have d1: "fst (find_loop (Suc 0) ?env2 plumbers no_filters [] JNull 1
        (fresh 1700000000)) = Some (Inr [named ''Bistro''])"
    by (simp only:)
  from b' b2 have d2: "cache (snd (find_loop (Suc 0) ?env2 plumbers no_filters [] JNull 1
        (fresh 1700000000))) (search_url JNull) = Some (?v, 1700003600)"
    by (simp only:)
  show ?thesis
    by (rule conjI [OF reach conjI [OF c1 conjI [OF c2 conjI [OF d1 d2]]]])
qed

text \<open>
  The claim as the specification words it fails within a single run. The second page
  hands out the token it was asked with, so the third page fetch has the URL of the
  second: it is answered from the cache. After three page fetches the network has seen
  two requests, and the answers of both are in the cache.
\<close>

theorem search_page_cached_counterexample:
  "page_fetches (trace (snd (find_businesses 3
      (online [page_of JNull [JObj [places [], (''next_page_token'', JStr ''more'')]],
               page_of (JStr ''more'') [JObj [places [], (''next_page_token'', JStr ''more'')],
                                        JObj [places []]]])
      plumbers no_filters (fresh 1700000000))))
     = [search_url JNull, search_url (JStr ''more''), search_url (JStr ''more'')]
   \<and> requested (trace (snd (find_businesses 3
      (online [page_of JNull [JObj [places [], (''next_page_token'', JStr ''more'')]],
               page_of (JStr ''more'') [JObj [places [], (''next_page_token'', JStr ''more'')],
                                        JObj [places []]]])
      plumbers no_filters (fresh 1700000000))))
     = [search_url JNull, search_url (JStr ''more'')]
   \<and> cache (snd (find_businesses 3
      (online [page_of JNull [JObj [places [], (''next_page_token'', JStr ''more'')]],
               page_of (JStr ''more'') [JObj [places [], (''next_page_token'', JStr ''more'')],
                                        JObj [places []]]])
      plumbers no_filters (fresh 1700000000))) (search_url (JStr ''more''))
     = Some (JObj [places [], (''next_page_token'', JStr ''more'')], 1700003602)"
  by code_simp

section \<open>The response cache\<close>









section \<open>One iteration of the page loop\<close>

lemma find_loop_Suc_cases:
  assumes run: "find_loop (Suc n) env req flt businesses token page w = (res, w')"
  obtains
    (page_error) e w2 where
      "fetch env (page_url env req token) (announce env req token page w) = (Inl e, w2)" "res = Some (Inr businesses)"
      "w' = log (Printed ''Error fetching businesses: '' e) w2"
  | (no_container) r w2 e where
      "fetch env (page_url env req token) (announce env req token page w) = (Inr r, w2)" "py_in ''results'' r = Inl e"
      "res = Some (Inl e)" "w' = w2"
  | (no_results) r w2 where
      "fetch env (page_url env req token) (announce env req token page w) = (Inr r, w2)" "py_in ''results'' r = Inr False"
      "res = Some (Inr businesses)" "w' = w2"
  | (ids_error) r w2 e where
      "fetch env (page_url env req token) (announce env req token page w) = (Inr r, w2)" "py_in ''results'' r = Inr True"
      "page_ids r = Inl e" "res = Some (Inl e)" "w' = w2"
  | (gather_error) r w2 ids e w3 where
      "fetch env (page_url env req token) (announce env req token page w) = (Inr r, w2)" "py_in ''results'' r = Inr True"
      "page_ids r = Inr ids" "gather env flt ids w2 = (Inl e, w3)"
      "res = Some (Inl e)" "w' = w3"
  | (token_error) r w2 ids results w3 e where
      "fetch env (page_url env req token) (announce env req token page w) = (Inr r, w2)" "py_in ''results'' r = Inr True"
      "page_ids r = Inr ids" "gather env flt ids w2 = (Inr results, w3)"
      "py_get r ''next_page_token'' JNull = Inl e" "res = Some (Inl e)" "w' = w3"
  | (last_page) r w2 ids results w3 t where
      "fetch env (page_url env req token) (announce env req token page w) = (Inr r, w2)" "py_in ''results'' r = Inr True"
      "page_ids r = Inr ids" "gather env flt ids w2 = (Inr results, w3)"
      "py_get r ''next_page_token'' JNull = Inr t" "\<not> truthy t"
      "res = Some (Inr (append_found businesses results))" "w' = w3"
  | (next_page) r w2 ids results w3 t where
      "fetch env (page_url env req token) (announce env req token page w) = (Inr r, w2)" "py_in ''results'' r = Inr True"
      "page_ids r = Inr ids" "gather env flt ids w2 = (Inr results, w3)"
      "py_get r ''next_page_token'' JNull = Inr t" "truthy t"
      "find_loop n env req flt (append_found businesses results) t (page + 1) (sleep 2 w3)
         = (res, w')"
proof -
  obtain x w2 where
    f: "fetch env (page_url env req token) (announce env req token page w) = (x, w2)"
    by (cases "fetch env (page_url env req token) (announce env req token page w)")
  show thesis
  proof (cases x)
    case (Inl e)
    with run f show thesis by (intro page_error [of e w2]) 
        (simp_all add: Let_def page_url_def announce_def)
  next
    case r: (Inr r)
    show thesis
    proof (cases "py_in ''results'' r")
      case (Inl e)
      with run f r show thesis by (intro no_container [of r w2 e]) 
        (simp_all add: Let_def page_url_def announce_def)
    next
      case (Inr b)
      show thesis
      proof (cases b)
        case False
        with run f r Inr show thesis by (intro no_results [of r w2]) 
        (simp_all add: Let_def page_url_def announce_def)
      next
        case True
        with Inr have res: "py_in ''results'' r = Inr True" by simp
        show thesis
        proof (cases "page_ids r")
          case (Inl e)
          with run f r res show thesis
            by (intro ids_error [of r w2 e]) 
        (simp_all add: Let_def page_url_def announce_def)
        next
          case ids: (Inr ids)
          obtain y w3 where g: "gather env flt ids w2 = (y, w3)"
            by (cases "gather env flt ids w2")
          show thesis
          proof (cases y)
            case (Inl e)
            with run f r res ids g show thesis
              by (intro gather_error [of r w2 ids e w3]) 
        (simp_all add: Let_def page_url_def announce_def)
          next
            case results: (Inr results)
            show thesis
            proof (cases "py_get r ''next_page_token'' JNull")
              case (Inl e)
              with run f r res ids g results show thesis
                by (intro token_error [of r w2 ids results w3 e]) 
        (simp_all add: Let_def page_url_def announce_def)
            next
              case t: (Inr t)
              show thesis
              proof (cases "truthy t")
                case False
                with run f r res ids g results t show thesis
                  by (intro last_page [of r w2 ids results w3 t]) 
        (simp_all add: Let_def page_url_def announce_def)
              next
                case True
                with run f r res ids g results t show thesis
                  by (intro next_page [of r w2 ids results w3 t]) 
        (simp_all add: Let_def page_url_def announce_def)
              qed
            qed
          qed
        qed
      qed
    qed
  qed
qed

section \<open>What a lookup leaves untouched\<close>

lemma silent_refl: "silent w w"
  by (simp add: silent_def)

lemma silent_trans: "silent w w1 \<Longrightarrow> silent w1 w2 \<Longrightarrow> silent w w2"
  by (auto simp: silent_def)

lemma silent_log: "detail_event e \<Longrightarrow> silent w (log e w)"
  by (simp add: silent_def)

lemma fetch_silent: "fetch env url w = (x, w2) \<Longrightarrow> silent w w2"
  by (auto simp: fetch_def session_get_def silent_def split: option.splits sum.splits)

lemma get_business_details_silent:
  assumes "get_business_details env p flt w = (x, w')"
  shows "silent w w'"
proof -
  let ?w0 = "log (DetailFetch (details_url env p)) w"
  obtain r w1 where f: "fetch env (details_url env p) ?w0 = (r, w1)"
    by (cases "fetch env (details_url env p) ?w0")
  have a: "silent w ?w0" by (simp add: silent_log)
  have b: "silent ?w0 w1" by (rule fetch_silent [OF f])
  have "w' = w1 \<or> (\<exists>e. w' = log (Printed ''Error fetching business details: '' e) w1)"
    using assms f by (auto simp: get_business_details_def split: sum.splits)
  then have "silent w1 w'" by (auto simp: silent_refl silent_log)
  with a b show ?thesis by (blast intro: silent_trans)
qed

section \<open>The lookups of a page, step by step\<close>

lemma requested_detail_fetches [simp]: "requested (map DetailFetch us) = []"
  by (induction us) simp_all

lemma requested_http [simp]: "requested (map Http us) = us"
  by (induction us) simp_all

lemma log_trace_update [simp]: "(log e w)\<lparr>trace := t\<rparr> = w\<lparr>trace := t\<rparr>"
  by (simp add: log_def)

lemma call_all_eq:
  "call_all env ids w =
     (map (\<lambda>u. (u, live w u)) (map (details_url env) ids),
      w\<lparr>trace := trace w @ map DetailFetch (map (details_url env) ids)\<rparr>)"
proof (induction ids arbitrary: w)
  case Nil
  show ?case by simp
next
  case (Cons p ps)
  show ?case by (simp add: Cons.IH)
qed

lemma send_all_eq:
  "send_all env (map (\<lambda>u. (u, lv u)) us) w =
     (map2 (\<lambda>u a. (u, lv u = None, a)) us (replies env lv (requested (trace w)) us),
      w\<lparr>trace := trace w @ map Http (filter (\<lambda>u. lv u = None) us)\<rparr>)"
proof (induction us arbitrary: w)
  case Nil
  show ?case by simp
next
  case (Cons u us)
  show ?case
  proof (cases "lv u")
    case None
    then show ?thesis
      by (simp add: Cons.IH session_get_def requested_append)
  next
    case (Some v)
    then show ?thesis by (simp add: Cons.IH)
  qed
qed

text \<open>The tasks of a page and the world in which the first of them finishes.\<close>

lemma launch_eq:
  assumes "call_all env ids w = (calls, w1)" and "send_all env calls w1 = (tasks, w2)"
  shows "tasks = map2 (\<lambda>u a. (u, live w u = None, a)) (map (details_url env) ids)
                   (replies env (live w) (requested (trace w)) (map (details_url env) ids))"
    and "w2 = w\<lparr>trace := trace w @ map DetailFetch (map (details_url env) ids)
                          @ map Http (filter (\<lambda>u. live w u = None) (map (details_url env) ids))\<rparr>"
proof -
  let ?us = "map (details_url env) ids"
  from assms(1) have c: "calls = map (\<lambda>u. (u, live w u)) ?us"
    and w1: "w1 = w\<lparr>trace := trace w @ map DetailFetch ?us\<rparr>"
    by (simp_all add: call_all_eq)
  have r: "requested (trace w1) = requested (trace w)"
    by (simp add: w1 requested_append del: map_map)
  from assms(2) show "tasks = map2 (\<lambda>u a. (u, live w u = None, a)) ?us
                   (replies env (live w) (requested (trace w)) ?us)"
    unfolding c send_all_eq r by simp
  from assms(2) show "w2 = w\<lparr>trace := trace w @ map DetailFetch ?us
                          @ map Http (filter (\<lambda>u. live w u = None) ?us)\<rparr>"
    unfolding c send_all_eq by (simp add: w1)
qed

lemma length_replies [simp]: "length (replies env lv h us) = length us"
  by (induction us arbitrary: h) (simp_all split: option.splits)


lemma launch_silent:
  assumes "call_all env ids w = (calls, w1)" and "send_all env calls w1 = (tasks, w2)"
  shows "silent w w2"
  unfolding launch_eq(2) [OF assms] silent_def by (auto simp: list_all_iff)


lemma complete_silent: "silent w (snd (complete flt t w))"
proof -
  obtain url was_sent a where t: "t = (url, was_sent, a)" by (cases t)
  show ?thesis
    unfolding t
    by (cases a)
       (auto simp: complete_def Let_def bind_err_def silent_def log_def split: sum.splits)
qed

lemma complete_all_silent: "complete_all flt tasks order slots w = (x, w') \<Longrightarrow> silent w w'"
proof (induction order arbitrary: slots w)
  case Nil
  then show ?case by (simp add: silent_refl)
next
  case (Cons i order)
  obtain y w1 where c: "complete flt (tasks ! i) w = (y, w1)"
    by (cases "complete flt (tasks ! i) w")
  have a: "silent w w1" using complete_silent [of w flt "tasks ! i"] c by simp
  show ?case
  proof (cases y)
    case (Inl e)
    with Cons.prems c a show ?thesis by simp
  next
    case (Inr b)
    with Cons.prems c have "complete_all flt tasks order (slots[i := b]) w1 = (x, w')" by simp
    from Cons.IH [OF this] a show ?thesis by (blast intro: silent_trans)
  qed
qed

lemma gather_silent:
  assumes "gather env flt ids w = (x, w')"
  shows "silent w w'"
proof -
  obtain calls w1 where c: "call_all env ids w = (calls, w1)" by (cases "call_all env ids w")
  obtain tasks w2 where s: "send_all env calls w1 = (tasks, w2)"
    by (cases "send_all env calls w1")
  from assms c s have "complete_all flt tasks
      (completion_order (arrival env (trace w2)) (length tasks))
      (replicate (length tasks) None) w2 = (x, w')"
    by (simp add: gather_def)
  from launch_silent [OF c s] complete_all_silent [OF this] show ?thesis
    by (rule silent_trans)
qed

lemma detail_events_unseen:
  assumes "list_all detail_event es"
  shows "filter pager_event es = []" and "page_fetches es = []" and "page_errors es = []"
  using assms by (induction es rule: page_errors.induct) simp_all

lemma page_fetches_append: "page_fetches (es @ fs) = page_fetches es @ page_fetches fs"
  by (induction es rule: page_fetches.induct) simp_all

lemma page_errors_append: "page_errors (es @ fs) = page_errors es @ page_errors fs"
  by (induction es rule: page_errors.induct) simp_all

lemma silent_facts:
  assumes "silent w w'"
  shows "clock w' = clock w"
    and "pager_view (trace w') = pager_view (trace w)"
    and "page_fetches (trace w') = page_fetches (trace w)"
    and "page_errors (trace w') = page_errors (trace w)"
  using assms
  by (auto simp: silent_def pager_view_def page_fetches_append page_errors_append
        detail_events_unseen)

lemma sleep_fields [simp]:
  "clock (sleep d w) = clock w + d"
  "cache (sleep d w) = cache w"
  "trace (sleep d w) = trace w @ [Sleep d]"
  by (simp_all add: sleep_def)

section \<open>The delay between pages\<close>

text \<open>
  C9. In every run of the page loop that ends, the events of the loop itself are: the
  status message and the fetch of the first page, which are preceded by no delay, and
  then, for each continuation token that was followed, a delay of 2 seconds, the status
  message and the fetch of the page whose URL is built with that token. Each token
  followed is a truthy one, so it is put into the URL, and the clock has moved by 2
  seconds for each of them.
\<close>

theorem delay_before_later_pages:
  assumes "find_loop n env req flt businesses token page w = (Some out, w')"
  shows "\<exists>tokens. (\<forall>t \<in> set tokens. truthy t)
           \<and> pager_view (trace w') =
               pager_view (trace w)
               @ [Status (searching page),
                  PageFetch (build_url env (location req) (radius req) (business_type req) token)]
               @ later_pages env req (page + 1) tokens
           \<and> clock w' = clock w + 2 * int (length tokens)"
  using assms
proof (induction n arbitrary: businesses token page w)
  case 0
  then show ?case by simp
next
  case (Suc n)
  let ?url = "build_url env (location req) (radius req) (business_type req) token"
  let ?w1 = "log (PageFetch ?url) (log (Status (searching page)) w)"
  have v1: "pager_view (trace ?w1) = pager_view (trace w) @ [Status (searching page), PageFetch ?url]"
    by (simp add: pager_view_def)
  have c1: "clock ?w1 = clock w" by simp
  have halt: "\<exists>tokens. (\<forall>t \<in> set tokens. truthy t)
           \<and> pager_view (trace w') =
               pager_view (trace w) @ [Status (searching page), PageFetch ?url]
               @ later_pages env req (page + 1) tokens
           \<and> clock w' = clock w + 2 * int (length tokens)"
    if "pager_view (trace w') = pager_view (trace ?w1)" and "clock w' = clock ?w1"
    using that v1 by (intro exI [of _ "[]"]) simp
  have u: "page_url env req token = ?url" by (simp add: page_url_def)
  have a: "announce env req token page w = ?w1" by (simp add: announce_def page_url_def)
  from Suc.prems show ?case
  proof (cases rule: find_loop_Suc_cases)
    case (page_error e w2)
    from fetch_silent [OF page_error(1) [unfolded u a]] have "silent ?w1 w2" .
    from silent_facts(1,2) [OF this] page_error(3) show ?thesis
      by (intro halt) (simp_all add: pager_view_def)
  next
    case (no_container r w2 e)
    from fetch_silent [OF no_container(1) [unfolded u a]] have "silent ?w1 w2" .
    from silent_facts(1,2) [OF this] no_container(4) show ?thesis by (intro halt) simp_all
  next
    case (no_results r w2)
    from fetch_silent [OF no_results(1) [unfolded u a]] have "silent ?w1 w2" .
    from silent_facts(1,2) [OF this] no_results(4) show ?thesis by (intro halt) simp_all
  next
    case (ids_error r w2 e)
    from fetch_silent [OF ids_error(1) [unfolded u a]] have "silent ?w1 w2" .
    from silent_facts(1,2) [OF this] ids_error(5) show ?thesis by (intro halt) simp_all
  next
    case (gather_error r w2 ids e w3)
    from fetch_silent [OF gather_error(1) [unfolded u a]] gather_silent [OF gather_error(4)]
    have "silent ?w1 w3" by (rule silent_trans)
    from silent_facts(1,2) [OF this] gather_error(6) show ?thesis by (intro halt) simp_all
  next
    case (token_error r w2 ids results w3 e)
    from fetch_silent [OF token_error(1) [unfolded u a]] gather_silent [OF token_error(4)]
    have "silent ?w1 w3" by (rule silent_trans)
    from silent_facts(1,2) [OF this] token_error(7) show ?thesis by (intro halt) simp_all
  next
    case (last_page r w2 ids results w3 t)
    from fetch_silent [OF last_page(1) [unfolded u a]] gather_silent [OF last_page(4)]
    have "silent ?w1 w3" by (rule silent_trans)
    from silent_facts(1,2) [OF this] last_page(8) show ?thesis by (intro halt) simp_all
  next
    case (next_page r w2 ids results w3 t)
    from fetch_silent [OF next_page(1) [unfolded u a]] gather_silent [OF next_page(4)]
    have s: "silent ?w1 w3" by (rule silent_trans)
    from Suc.IH [OF next_page(7)] obtain tokens where
      tr: "\<forall>t \<in> set tokens. truthy t"
      and v: "pager_view (trace w') =
               pager_view (trace (sleep 2 w3))
               @ [Status (searching (page + 1)),
                  PageFetch (build_url env (location req) (radius req) (business_type req) t)]
               @ later_pages env req (page + 1 + 1) tokens"
      and c: "clock w' = clock (sleep 2 w3) + 2 * int (length tokens)"
      by blast
    have v3: "pager_view (trace (sleep 2 w3)) = pager_view (trace ?w1) @ [Sleep 2]"
      using silent_facts(2) [OF s] by (simp add: pager_view_def)
    have c3: "clock (sleep 2 w3) = clock w + 2" using silent_facts(1) [OF s] by simp
    show ?thesis
      using tr v c v1 v3 c3 next_page(6)
      by (intro exI [of _ "t # tokens"]) simp
  qed
qed

theorem delay_before_later_pages_witness:
  "(\<exists>tokens. (\<forall>t \<in> set tokens. truthy t)
      \<and> pager_view (trace (snd (find_loop 5
            (online [page_of JNull [JObj [places [''p1''], (''next_page_token'', JStr ''t2'')]],
                     page_of (JStr ''t2'') [JObj [places [''p2'']]],
                     detail_of ''p1'' [(''name'', JStr ''Bistro'')],
                     detail_of ''p2'' [(''name'', JStr ''Cafe'')]])
            plumbers no_filters [] JNull 1 (fresh 1700000000)))) =
          pager_view (trace (fresh 1700000000))
          @ [Status (searching 1),
             PageFetch (build_url
               (online [page_of JNull [JObj [places [''p1''], (''next_page_token'', JStr ''t2'')]],
                        page_of (JStr ''t2'') [JObj [places [''p2'']]],
                        detail_of ''p1'' [(''name'', JStr ''Bistro'')],
                        detail_of ''p2'' [(''name'', JStr ''Cafe'')]])
               (location plumbers) (radius plumbers) (business_type plumbers) JNull)]
          @ later_pages
              (online [page_of JNull [JObj [places [''p1''], (''next_page_token'', JStr ''t2'')]],
                       page_of (JStr ''t2'') [JObj [places [''p2'']]],
                       detail_of ''p1'' [(''name'', JStr ''Bistro'')],
                       detail_of ''p2'' [(''name'', JStr ''Cafe'')]])
              plumbers (1 + 1) tokens
      \<and> clock (snd (find_loop 5
            (online [page_of JNull [JObj [places [''p1''], (''next_page_token'', JStr ''t2'')]],
                     page_of (JStr ''t2'') [JObj [places [''p2'']]],
                     detail_of ''p1'' [(''name'', JStr ''Bistro'')],
                     detail_of ''p2'' [(''name'', JStr ''Cafe'')]])
            plumbers no_filters [] JNull 1 (fresh 1700000000)))
          = clock (fresh 1700000000) + 2 * int (length tokens))
   \<and> pager_view (trace (snd (find_loop 5
            (online [page_of JNull [JObj [places [''p1''], (''next_page_token'', JStr ''t2'')]],
                     page_of (JStr ''t2'') [JObj [places [''p2'']]],
                     detail_of ''p1'' [(''name'', JStr ''Bistro'')],
                     detail_of ''p2'' [(''name'', JStr ''Cafe'')]])
            plumbers no_filters [] JNull 1 (fresh 1700000000))))
       = [Status (searching 1), PageFetch (search_url JNull),
          Sleep 2, Status (searching 2), PageFetch (search_url (JStr ''t2''))]"
proof -
  let ?env = "online [page_of JNull [JObj [places [''p1''], (''next_page_token'', JStr ''t2'')]],
                     page_of (JStr ''t2'') [JObj [places [''p2'']]],
                     detail_of ''p1'' [(''name'', JStr ''Bistro'')],
                     detail_of ''p2'' [(''name'', JStr ''Cafe'')]]"
  let ?run = "find_loop 5 ?env plumbers no_filters [] JNull 1 (fresh 1700000000)"
  have "fst ?run = Some (Inr [named ''Bistro'', named ''Cafe''])"
    by code_simp
  then have h: "?run = (Some (Inr [named ''Bistro'', named ''Cafe'']), snd ?run)"
    by (rule pair_collapse)
  have v: "pager_view (trace (snd ?run))
       = [Status (searching 1), PageFetch (search_url JNull),
          Sleep 2, Status (searching 2), PageFetch (search_url (JStr ''t2''))]"
    by code_simp
  from delay_before_later_pages [OF h] v show ?thesis by blast
qed

section \<open>What the lookups of a page return\<close>

lemma live_trace_update [simp]: "live (w\<lparr>trace := t\<rparr>) url = live w url"
  by (simp add: live_def split: option.splits)







lemma detail_fetches_map [simp]:
  "detail_fetches (map DetailFetch us) = us" "detail_fetches (map Http us) = []"
  by (induction us) simp_all






section \<open>What the cache holds after a fetch\<close>






section \<open>The order of arrival and the outcomes\<close>





section \<open>Runs against a service without memory\<close>


lemma cache_exact_log [simp]: "cache_exact env (log e w) = cache_exact env w"
  by (simp add: cache_exact_def)

lemma cache_exact_sleep [simp]: "cache_exact env (sleep d w) = cache_exact env w"
  by (simp add: cache_exact_def)

lemma cache_exact_announce [simp]:
  "cache_exact env (announce env req token page w) = cache_exact env w"
  by (simp add: announce_def)

lemma cache_exact_trace [simp]: "cache_exact env (w\<lparr>trace := t\<rparr>) = cache_exact env w"
  by (simp add: cache_exact_def)









lemma announce_clock [simp]: "clock (announce env req token page w) = clock w"
  by (simp add: announce_def)




section \<open>A cache that is true to the service\<close>

lemma announce_cache [simp]: "cache (announce env req token page w) = cache w"
  by (simp add: announce_def)

lemma cache_true_log [simp]: "cache_true env (log e w) = cache_true env w"
  by (simp add: cache_true_def)

lemma cache_true_sleep [simp]: "cache_true env (sleep d w) = cache_true env w"
  by (simp add: cache_true_def)

lemma cache_true_announce [simp]:
  "cache_true env (announce env req token page w) = cache_true env w"
  by (simp add: cache_true_def)





section \<open>An exception of a detail lookup\<close>








section \<open>The page loop, forwards\<close>













end
